theory Spec2Isabelle
  imports Main "HOL-Library.Multiset"
begin

section \<open>The table of failed query logs\<close>

text \<open>
  The program is one function, \<^verbatim>\<open>generate_report\<close> in \<^verbatim>\<open>main.py\<close>. It downloads a
  spreadsheet, loads it into a pandas DataFrame, aggregates it, renders a chart and a
  PDF, and uploads the PDF.

  A Python \<^verbatim>\<open>str\<close> is modelled as a \<^typ>\<open>string\<close>, one list element for each code point
  (so \<^const>\<open>length\<close> and \<^const>\<open>take\<close> count what Python's \<^verbatim>\<open>len\<close> and slicing count);
  the code points are those below 256. A null cell (NaN, NaT, None) is \<^const>\<open>None\<close>.
  A timestamp is an integer, ordered as time is. An exception is its message, the text
  that \<^verbatim>\<open>{e}\<close> prints.
\<close>

type_synonym timestamp = int
type_synonym exn = string

text \<open>
  One row of the DataFrame, read at the three columns the program uses. The DataFrame
  also knows the names of its columns; the cells of a row are only read after the
  validation of the column names has passed.
\<close>

record row =
  date :: "timestamp option"
  dataset :: "string option"
  reason :: "string option"

record dataframe =
  columns :: "string list"
  records :: "row list"

text \<open>
  \<^verbatim>\<open>pd.read_excel\<close> is called with its defaults (\<^verbatim>\<open>keep_default_na=True\<close>): a cell whose
  text is one of pandas' default NA literals is loaded as null, so no text cell of a
  loaded table holds one of them.
\<close>

definition na_values :: "string list" where
  "na_values =
     [[], ''#N/A'', ''#N/A N/A'', ''#NA'', ''-1.#IND'', ''-1.#QNAN'', ''-NaN'', ''-nan'',
      ''1.#IND'', ''1.#QNAN'', ''<NA>'', ''N/A'', ''NA'', ''NULL'', ''NaN'', ''None'',
      ''n/a'', ''nan'', ''null'']"

definition na_cell :: "string option \<Rightarrow> string option" where
  "na_cell v = (case v of None \<Rightarrow> None | Some t \<Rightarrow> if t \<in> set na_values then None else Some t)"

definition na_row :: "row \<Rightarrow> row" where
  "na_row r = r\<lparr> dataset := na_cell (dataset r), reason := na_cell (reason r) \<rparr>"

definition keep_default_na :: "dataframe \<Rightarrow> dataframe" where
  "keep_default_na df = df\<lparr> records := map na_row (records df) \<rparr>"

subsection \<open>The pandas operations the program calls\<close>

text \<open>\<^verbatim>\<open>Series.dropna\<close>: the non-null values, in order.\<close>

fun dropna :: "'a option list \<Rightarrow> 'a list" where
  "dropna [] = []"
| "dropna (None # vs) = dropna vs"
| "dropna (Some v # vs) = v # dropna vs"

text \<open>
  \<^verbatim>\<open>Series.value_counts()\<close> with its defaults (\<^verbatim>\<open>dropna=True\<close>, \<^verbatim>\<open>sort=True\<close>,
  \<^verbatim>\<open>ascending=False\<close>): nulls are dropped, each distinct value is counted in a table
  that keeps the values in the order of their first appearance (\<open>tally\<close> is one
  insertion into that table), and the table is sorted by descending count. The sort is
  taken as stable, so equal counts stay in order of first appearance.
\<close>

fun tally :: "('a \<times> nat) list \<Rightarrow> 'a \<Rightarrow> ('a \<times> nat) list" where
  "tally [] k = [(k, 1)]"
| "tally ((k', c) # kcs) k =
     (if k' = k then (k', Suc c) # kcs else (k', c) # tally kcs k)"

definition value_counts :: "'a option list \<Rightarrow> ('a \<times> nat) list" where
  "value_counts vs = sort_key (\<lambda>kc. - int (snd kc)) (foldl tally [] (dropna vs))"

text \<open>
  \<^verbatim>\<open>Series.idxmax()\<close>: the label of the first occurrence of the maximum; on an empty
  Series it raises ValueError.
\<close>

fun argmax_from :: "'a \<times> nat \<Rightarrow> ('a \<times> nat) list \<Rightarrow> 'a \<times> nat" where
  "argmax_from best [] = best"
| "argmax_from best (kc # kcs) =
     argmax_from (if snd best < snd kc then kc else best) kcs"

definition idxmax :: "('a \<times> nat) list \<Rightarrow> exn + 'a" where
  "idxmax kcs =
     (case kcs of
        [] \<Rightarrow> Inl ''attempt to get argmax of an empty sequence''
      | kc # rest \<Rightarrow> Inr (fst (argmax_from kc rest)))"

text \<open>\<^verbatim>\<open>Series.isnull().all()\<close>, true on the empty Series.\<close>

definition isnull_all :: "'a option list \<Rightarrow> bool" where
  "isnull_all vs = list_all (\<lambda>v. v = None) vs"

text \<open>\<^verbatim>\<open>Series.max()\<close>: the greatest non-null value, null when there is none.\<close>

definition series_max :: "('a::linorder) option list \<Rightarrow> 'a option" where
  "series_max vs = (case dropna vs of [] \<Rightarrow> None | d # ds \<Rightarrow> Some (fold max ds d))"

text \<open>\<^verbatim>\<open>DataFrame.head(n)\<close>.\<close>

definition head :: "nat \<Rightarrow> 'a list \<Rightarrow> 'a list" where
  "head n xs = take n xs"

section \<open>Step 7, first part: the aggregation\<close>

text \<open>
  \<^verbatim>\<open>
  total_failures = len(df)
  by_dataset = df['dataset'].value_counts()
  most_common_error = df['reason'].value_counts().idxmax() if not df['reason'].isnull().all() else "N/A"
  most_recent = df['date'].max()
  recent_failures = df[['date', 'dataset', 'reason']].head(5)
  \<close>
\<close>

type_synonym recent_row = "timestamp option \<times> string option \<times> string option"

record summary =
  total_failures :: nat
  by_dataset :: "(string \<times> nat) list"
  most_common_error :: string
  most_recent :: "timestamp option"
  recent_failures :: "recent_row list"

definition restrict_cols :: "row \<Rightarrow> recent_row" where
  "restrict_cols r = (date r, dataset r, reason r)"

definition most_common_reason :: "row list \<Rightarrow> exn + string" where
  "most_common_reason rs =
     (if \<not> isnull_all (map reason rs) then idxmax (value_counts (map reason rs))
      else Inr ''N/A'')"

definition aggregate :: "row list \<Rightarrow> exn + summary" where
  "aggregate rs =
     (case most_common_reason rs of
        Inl e \<Rightarrow> Inl e
      | Inr m \<Rightarrow>
          Inr \<lparr> total_failures = length rs,
                by_dataset = value_counts (map dataset rs),
                most_common_error = m,
                most_recent = series_max (map date rs),
                recent_failures = head 5 (map restrict_cols rs) \<rparr>)"

text \<open>How often a reason value occurs in the rows, and how many rows have no dataset.\<close>

definition reason_freq :: "row list \<Rightarrow> string \<Rightarrow> nat" where
  "reason_freq rs v = length (filter (\<lambda>r. reason r = Some v) rs)"

definition dataset_freq :: "row list \<Rightarrow> string \<Rightarrow> nat" where
  "dataset_freq rs v = length (filter (\<lambda>r. dataset r = Some v) rs)"

definition null_datasets :: "row list \<Rightarrow> nat" where
  "null_datasets rs = length (filter (\<lambda>r. dataset r = None) rs)"

definition counts_sum :: "('a \<times> nat) list \<Rightarrow> nat" where
  "counts_sum kcs = sum_list (map snd kcs)"

section \<open>Step 7, second part: the summary text\<close>

subsection \<open>The Python string operations the program calls\<close>

text \<open>\<^verbatim>\<open>str(n)\<close> of a non-negative integer: its decimal digits.\<close>

fun str_nat :: "nat \<Rightarrow> string" where
  "str_nat n =
     (if n < 10 then [char_of (48 + n)]
      else str_nat (n div 10) @ [char_of (48 + n mod 10)])"

declare str_nat.simps [simp del]

text \<open>
  \<^verbatim>\<open>str(v)\<close> of a cell of a text column: the text itself, and for a null cell what
  pandas prints for the null, \<open>null\<close>. That depends on the row: \<^verbatim>\<open>iterrows\<close> builds a
  Series from each row and infers its type, so a null prints \<^verbatim>\<open>nan\<close> in a row kept as
  objects and \<^verbatim>\<open>NaT\<close> in a row inferred as datetimes (a date with neither dataset nor
  reason).
\<close>

definition str_cell :: "string \<Rightarrow> string option \<Rightarrow> string" where
  "str_cell null v = (case v of None \<Rightarrow> null | Some t \<Rightarrow> t)"

text \<open>
  \<^verbatim>\<open>str.isspace\<close> of one character, for the code points below 256: tab, line feed,
  vertical tab, form feed, carriage return, the four separators 0x1C to 0x1F, space,
  next line (0x85) and no-break space (0xA0).
\<close>

definition isspace :: "char \<Rightarrow> bool" where
  "isspace c =
     ((of_char c :: nat) \<in> set [0x09, 0x0A, 0x0B, 0x0C, 0x0D, 0x1C, 0x1D, 0x1E, 0x1F, 0x20, 0x85, 0xA0])"

text \<open>
  \<^verbatim>\<open>str.split()\<close> without arguments: the maximal runs of non-whitespace characters.
  \<open>split_from cur cs\<close> scans \<open>cs\<close> with the word read so far, reversed, in \<open>cur\<close>.
\<close>

fun split_from :: "string \<Rightarrow> string \<Rightarrow> string list" where
  "split_from cur [] = (if cur = [] then [] else [rev cur])"
| "split_from cur (c # cs) =
     (if isspace c then (if cur = [] then split_from [] cs else rev cur # split_from [] cs)
      else split_from (c # cur) cs)"

definition split :: "string \<Rightarrow> string list" where
  "split text = split_from [] text"

text \<open>\<^verbatim>\<open>sep.join(parts)\<close>.\<close>

fun join :: "string \<Rightarrow> string list \<Rightarrow> string" where
  "join sep [] = []"
| "join sep [p] = p"
| "join sep (p # q # ps) = p @ sep @ join sep (q # ps)"

subsection \<open>The lines of the summary\<close>

text \<open>
  \<^verbatim>\<open>
  summary_lines = [
      f"Failed Query Log Report",
      f"Total failed queries: {total_failures}",
      f"Most recent failure: {most_recent}",
      "",
      "Failures by dataset (top 5):"
  ]
  for dataset, count in by_dataset.head(5).items():
      summary_lines.append(f"  - {dataset}: {count}")
  summary_lines.append("")
  summary_lines.append(f"Most common error: {most_common_error}")
  summary_lines.append("")
  summary_lines.append("Recent failures (top 5):")
  for _, row in recent_failures.iterrows():
      summary_lines.append(f"  - Date: {row['date']}, Dataset: {row['dataset']}, Reason: {str(row['reason'])[:60]}...")
  \<close>
  How a timestamp (or a null date) prints is pandas' business; it is the parameter
  \<open>str_date\<close>. So is what a null dataset or reason of a given row prints; it is the
  parameter \<open>str_null\<close>.
\<close>

definition render_reason :: "string \<Rightarrow> string option \<Rightarrow> string" where
  "render_reason null v = take 60 (str_cell null v) @ ''...''"

definition dataset_line :: "string \<times> nat \<Rightarrow> string" where
  "dataset_line kc = ''  - '' @ fst kc @ '': '' @ str_nat (snd kc)"

definition recent_line ::
  "(timestamp option \<Rightarrow> string) \<Rightarrow> (recent_row \<Rightarrow> string) \<Rightarrow> recent_row \<Rightarrow> string" where
  "recent_line str_date str_null r =
     (case r of (d, ds, rsn) \<Rightarrow>
        ''  - Date: '' @ str_date d @ '', Dataset: '' @ str_cell (str_null r) ds @
        '', Reason: '' @ render_reason (str_null r) rsn)"

definition summary_lines ::
  "(timestamp option \<Rightarrow> string) \<Rightarrow> (recent_row \<Rightarrow> string) \<Rightarrow> summary \<Rightarrow> string list" where
  "summary_lines str_date str_null s =
     [''Failed Query Log Report'',
      ''Total failed queries: '' @ str_nat (total_failures s),
      ''Most recent failure: '' @ str_date (most_recent s),
      [],
      ''Failures by dataset (top 5):'']
     @ map dataset_line (head 5 (by_dataset s))
     @ [[],
        ''Most common error: '' @ most_common_error s,
        [],
        ''Recent failures (top 5):'']
     @ map (recent_line str_date str_null) (recent_failures s)"

text \<open>
  \<^verbatim>\<open>
  summary_text = "\n".join(summary_lines)
  words = summary_text.split()
  if len(words) > 300:
      summary_text = " ".join(words[:300]) + "..."
  \<close>
\<close>

definition cap_words :: "string \<Rightarrow> string" where
  "cap_words text =
     (let words = split text
      in if length words > 300 then join '' '' (take 300 words) @ ''...'' else text)"

definition summary_text ::
  "(timestamp option \<Rightarrow> string) \<Rightarrow> (recent_row \<Rightarrow> string) \<Rightarrow> summary \<Rightarrow> string" where
  "summary_text str_date str_null s =
     cap_words (join [CHR 0x0A] (summary_lines str_date str_null s))"

section \<open>The run: files, external calls, log and response\<close>

text \<open>
  What the chart image shows, what the PDF holds, and the two fixed paths under
  \<^verbatim>\<open>/tmp\<close> the program writes (\<^verbatim>\<open>/tmp/failures_by_dataset.png\<close> and
  \<^verbatim>\<open>/tmp/failed_logs_report.pdf\<close>); a path holds \<^const>\<open>None\<close> when no file is there.
\<close>

record chart =
  chart_title :: string
  chart_xlabel :: string
  chart_ylabel :: string
  chart_bars :: "(string \<times> nat) list"

record pdf_doc =
  pdf_body :: string
  pdf_image :: "chart option"

record local_fs =
  chart_file :: "chart option"
  pdf_file :: "pdf_doc option"

text \<open>
  The remote store: a list of files, in the order a listing returns them. The content
  of a file is either bytes the program has not written or a PDF it has.
\<close>

datatype blob = Bytes "nat list" | Pdf pdf_doc

record drive_file =
  file_id :: string
  file_name :: string
  file_parents :: "string list"
  file_trashed :: bool
  file_content :: blob

text \<open>
  The calls into libraries and the network. Each one either raises, with the message
  the world's \<open>fault\<close> gives, or does what is modelled below.
\<close>

datatype ext_call =
    Json_loads
  | From_service_account_info
  | Build
  | Files_list_input
  | Next_chunk
  | Plot
  | Fpdf
  | Media_file_upload
  | Files_list_report
  | Files_update
  | Files_create

text \<open>
  The world of one run: the environment variables, the faults, the files of the remote
  store, the progress the download reports, what the spreadsheet parser makes of a
  file's bytes (an exception, or the table as its cells are written), how pandas prints
  dates and nulls, the message of the exception that plotting an empty Series raises,
  the files under \<^verbatim>\<open>/tmp\<close> when the run starts, and the identifier the store gives to
  a file it creates.
\<close>

record world =
  environ :: "string \<Rightarrow> string option"
  fault :: "ext_call \<Rightarrow> exn option"
  drive_files :: "drive_file list"
  download_progress :: "nat list"
  workbook :: "blob \<Rightarrow> exn + dataframe"
  str_date :: "timestamp option \<Rightarrow> string"
  str_null :: "recent_row \<Rightarrow> string"
  empty_plot_error :: exn
  tmp_files :: local_fs
  created_id :: string

text \<open>\<^verbatim>\<open>pd.read_excel(fh)\<close>: the cells of the workbook, the NA literals loaded as null.\<close>

definition read_excel :: "world \<Rightarrow> blob \<Rightarrow> exn + dataframe" where
  "read_excel w fh =
     (case workbook w fh of Inl e \<Rightarrow> Inl e | Inr cells \<Rightarrow> Inr (keep_default_na cells))"

text \<open>The lines the program prints, one constructor for each \<^verbatim>\<open>print\<close>.\<close>

datatype log_line =
    Log_starting
  | Error_env_missing
  | Error_json_parse exn
  | Log_credentials_created
  | Log_using_folder string
  | Log_searching
  | Log_files_found "string list"
  | Error_no_input
  | Log_found_file_id string
  | Log_downloading
  | Log_download_progress nat
  | Log_downloaded
  | Log_loading
  | Log_loaded nat nat
  | Error_column_missing string
  | Log_generating
  | Log_pdf_generated
  | Log_uploading
  | Log_updated string
  | Log_created string
  | Error_generating exn

record state =
  log :: "log_line list"
  drive :: "drive_file list"
  local :: local_fs

type_synonym response = "string \<times> nat"

text \<open>
  A step of the run takes the state and either raises (\<^const>\<open>Inl\<close>) or returns a
  value, with the state it leaves behind.
\<close>

type_synonym 'a step = "state \<Rightarrow> (exn + 'a) \<times> state"

definition then_do :: "'a step \<Rightarrow> ('a \<Rightarrow> 'b step) \<Rightarrow> 'b step" where
  "then_do m f st = (case m st of (Inl e, st') \<Rightarrow> (Inl e, st') | (Inr x, st') \<Rightarrow> f x st')"

definition returns :: "'a \<Rightarrow> 'a step" where
  "returns x st = (Inr x, st)"

definition raises :: "exn \<Rightarrow> 'a step" where
  "raises e st = (Inl e, st)"

definition tell :: "log_line \<Rightarrow> unit step" where
  "tell l st = (Inr (), st\<lparr>log := log st @ [l]\<rparr>)"

definition external :: "world \<Rightarrow> ext_call \<Rightarrow> unit step" where
  "external w c st = (case fault w c of Some e \<Rightarrow> (Inl e, st) | None \<Rightarrow> (Inr (), st))"

subsection \<open>The remote store's operations\<close>

text \<open>
  The query \<^verbatim>\<open>'<folder>' in parents and name='<name>' and trashed=false\<close>, then
  \<^verbatim>\<open>files().update(fileId=..., media_body=...)\<close> and \<^verbatim>\<open>files().create(...)\<close>.
\<close>

definition list_files :: "string \<Rightarrow> string \<Rightarrow> drive_file list \<Rightarrow> drive_file list" where
  "list_files folder_id nm fs =
     filter (\<lambda>f. folder_id \<in> set (file_parents f) \<and> file_name f = nm \<and> \<not> file_trashed f) fs"

definition update_file :: "string \<Rightarrow> blob \<Rightarrow> drive_file list \<Rightarrow> drive_file list" where
  "update_file fid media fs =
     map (\<lambda>f. if file_id f = fid then f\<lparr>file_content := media\<rparr> else f) fs"

definition new_file :: "string \<Rightarrow> string \<Rightarrow> string \<Rightarrow> blob \<Rightarrow> drive_file" where
  "new_file fid nm folder_id media =
     \<lparr> file_id = fid, file_name = nm, file_parents = [folder_id],
       file_trashed = False, file_content = media \<rparr>"

definition files_list :: "world \<Rightarrow> ext_call \<Rightarrow> string \<Rightarrow> string \<Rightarrow> drive_file list step" where
  "files_list w c folder_id nm =
     then_do (external w c) (\<lambda>_ st. (Inr (list_files folder_id nm (drive st)), st))"

definition files_update :: "world \<Rightarrow> string \<Rightarrow> blob \<Rightarrow> unit step" where
  "files_update w fid media =
     then_do (external w Files_update)
       (\<lambda>_ st. (Inr (), st\<lparr>drive := update_file fid media (drive st)\<rparr>))"

definition files_create :: "world \<Rightarrow> string \<Rightarrow> string \<Rightarrow> blob \<Rightarrow> string step" where
  "files_create w nm folder_id media =
     then_do (external w Files_create)
       (\<lambda>_ st. (Inr (created_id w),
                 st\<lparr>drive := drive st @ [new_file (created_id w) nm folder_id media]\<rparr>))"

subsection \<open>Step 8: upload the report\<close>

text \<open>
  \<^verbatim>\<open>MediaFileUpload(pdf_path, ...)\<close> opens the file at the path, and raises when it is
  not there.
\<close>

definition media_file_upload :: "world \<Rightarrow> blob step" where
  "media_file_upload w =
     then_do (external w Media_file_upload)
       (\<lambda>_ st. case pdf_file (local st) of
                  None \<Rightarrow> (Inl ''No such file or directory: /tmp/failed_logs_report.pdf'', st)
                | Some doc \<Rightarrow> (Inr (Pdf doc), st))"

definition success :: response where
  "success = (''PDF report generated and uploaded to Drive.'', 200)"

definition upload_report :: "world \<Rightarrow> string \<Rightarrow> response step" where
  "upload_report w folder_id =
     then_do (tell Log_uploading) (\<lambda>_.
     then_do (media_file_upload w) (\<lambda>media.
     then_do (files_list w Files_list_report folder_id ''failed_logs_report.pdf'') (\<lambda>report_files.
       case report_files of
         f # _ \<Rightarrow>
           then_do (files_update w (file_id f) media) (\<lambda>_.
           then_do (tell (Log_updated (file_id f))) (\<lambda>_.
           returns success))
       | [] \<Rightarrow>
           then_do (files_create w ''failed_logs_report.pdf'' folder_id media) (\<lambda>new_id.
           then_do (tell (Log_created new_id)) (\<lambda>_.
           returns success)))))"

subsection \<open>Step 7: chart, summary text and PDF\<close>

text \<open>
  The chart: \<^verbatim>\<open>plt.figure\<close> to \<^verbatim>\<open>plt.close\<close>. Any of these calls may raise for reasons of
  the world (\<open>fault w Plot\<close>); and \<^verbatim>\<open>by_dataset.plot(kind='bar')\<close> raises on an empty
  Series, which has no bar to draw. Otherwise the image is left at the chart path, over
  whatever was there.
\<close>

definition plot_chart :: "world \<Rightarrow> (string \<times> nat) list \<Rightarrow> unit step" where
  "plot_chart w bars =
     then_do (external w Plot)
       (\<lambda>_ st. if bars = [] then (Inl (empty_plot_error w), st)
                else (Inr (),
                 st\<lparr>local := (local st)\<lparr>chart_file :=
                      Some \<lparr> chart_title = ''Failures by Dataset'', chart_xlabel = ''Dataset'',
                             chart_ylabel = ''Count'', chart_bars = bars \<rparr>\<rparr>\<rparr>))"

text \<open>
  The PDF: the text, then the image if \<^verbatim>\<open>os.path.exists(chart_path)\<close>, written to the
  PDF path.
\<close>

definition write_pdf :: "world \<Rightarrow> string \<Rightarrow> unit step" where
  "write_pdf w text =
     then_do (external w Fpdf)
       (\<lambda>_ st. (Inr (),
                 st\<lparr>local := (local st)\<lparr>pdf_file :=
                      Some \<lparr> pdf_body = text, pdf_image = chart_file (local st) \<rparr>\<rparr>\<rparr>))"

definition generate_pdf :: "world \<Rightarrow> string \<Rightarrow> dataframe \<Rightarrow> response step" where
  "generate_pdf w folder_id df =
     then_do (tell Log_generating) (\<lambda>_.
       case aggregate (records df) of
         Inl e \<Rightarrow> raises e
       | Inr s \<Rightarrow>
           then_do (plot_chart w (by_dataset s)) (\<lambda>_.
           then_do (write_pdf w (summary_text (str_date w) (str_null w) s)) (\<lambda>_.
           then_do (tell Log_pdf_generated) (\<lambda>_.
           upload_report w folder_id))))"

subsection \<open>Step 6: validate the columns\<close>

text \<open>
  \<^verbatim>\<open>
  required_cols = ['dataset', 'reason', 'date']
  for col in required_cols:
      if col not in df.columns:
          return f"Error: Required column missing: {col}", 500
  \<close>
\<close>

definition required_cols :: "string list" where
  "required_cols = [''dataset'', ''reason'', ''date'']"

fun first_missing :: "string list \<Rightarrow> string list \<Rightarrow> string option" where
  "first_missing [] cols = None"
| "first_missing (c # cs) cols = (if c \<notin> set cols then Some c else first_missing cs cols)"

definition validate_and_report :: "world \<Rightarrow> string \<Rightarrow> dataframe \<Rightarrow> response step" where
  "validate_and_report w folder_id df =
     (case first_missing required_cols (columns df) of
        Some c \<Rightarrow>
          then_do (tell (Error_column_missing c)) (\<lambda>_.
          returns (''Error: Required column missing: '' @ c, 500))
      | None \<Rightarrow> generate_pdf w folder_id df)"

subsection \<open>Steps 3 to 5: find, download and load the spreadsheet\<close>

text \<open>
  The download loop calls \<^verbatim>\<open>next_chunk\<close> until it reports done and prints the progress
  after each call. \<open>download_progress\<close> lists the percentages of the calls that
  return; after them the download is done, or a further call raises.
\<close>

fun tell_all :: "log_line list \<Rightarrow> unit step" where
  "tell_all [] = returns ()"
| "tell_all (l # ls) = then_do (tell l) (\<lambda>_. tell_all ls)"

definition download :: "world \<Rightarrow> drive_file \<Rightarrow> blob step" where
  "download w f =
     then_do (tell Log_downloading) (\<lambda>_.
     then_do (tell_all (map Log_download_progress (download_progress w))) (\<lambda>_.
     then_do (external w Next_chunk) (\<lambda>_.
     then_do (tell Log_downloaded) (\<lambda>_.
     returns (file_content f)))))"

definition load_table :: "world \<Rightarrow> blob \<Rightarrow> dataframe step" where
  "load_table w fh =
     then_do (tell Log_loading) (\<lambda>_.
       case read_excel w fh of
         Inl e \<Rightarrow> raises e
       | Inr df \<Rightarrow>
           then_do (tell (Log_loaded (length (records df)) (length (columns df)))) (\<lambda>_.
           returns df))"

definition fetch_and_report :: "world \<Rightarrow> string \<Rightarrow> response step" where
  "fetch_and_report w folder_id =
     then_do (tell Log_searching) (\<lambda>_.
     then_do (files_list w Files_list_input folder_id ''failed_logs.xlsx'') (\<lambda>files.
     then_do (tell (Log_files_found (map file_id files))) (\<lambda>_.
       case files of
         [] \<Rightarrow>
           then_do (tell Error_no_input) (\<lambda>_.
           returns (''No failed_logs.xlsx found in Drive folder.'', 404))
       | f # _ \<Rightarrow>
           then_do (tell (Log_found_file_id (file_id f))) (\<lambda>_.
           then_do (download w f) (\<lambda>fh.
           then_do (load_table w fh) (\<lambda>df.
           validate_and_report w folder_id df))))))"

subsection \<open>Steps 1 and 2, and the handler around everything\<close>

text \<open>
  \<^verbatim>\<open>os.environ.get\<close> gives \<^const>\<open>None\<close> for an unset variable, and Python's
  \<^verbatim>\<open>not v\<close> holds of \<^const>\<open>None\<close> and of the empty string.
\<close>

definition try_body :: "world \<Rightarrow> response step" where
  "try_body w =
     then_do (tell Log_starting) (\<lambda>_.
       case (environ w ''GOOGLE_SERVICE_ACCOUNT_JSON'', environ w ''DRIVE_FOLDER_ID'') of
         (Some service_account_json, Some folder_id) \<Rightarrow>
           if service_account_json = [] \<or> folder_id = [] then
             then_do (tell Error_env_missing) (\<lambda>_.
             returns (''Error: Required environment variables (GOOGLE_SERVICE_ACCOUNT_JSON, DRIVE_FOLDER_ID) are missing.'', 500))
           else
             (case fault w Json_loads of
                Some e \<Rightarrow>
                  then_do (tell (Error_json_parse e)) (\<lambda>_.
                  returns (''Error: Failed to parse GOOGLE_SERVICE_ACCOUNT_JSON: '' @ e, 500))
              | None \<Rightarrow>
                  then_do (external w From_service_account_info) (\<lambda>_.
                  then_do (tell Log_credentials_created) (\<lambda>_.
                  then_do (external w Build) (\<lambda>_.
                  then_do (tell (Log_using_folder folder_id)) (\<lambda>_.
                  fetch_and_report w folder_id)))))
       | _ \<Rightarrow>
           then_do (tell Error_env_missing) (\<lambda>_.
           returns (''Error: Required environment variables (GOOGLE_SERVICE_ACCOUNT_JSON, DRIVE_FOLDER_ID) are missing.'', 500)))"

definition initial :: "world \<Rightarrow> state" where
  "initial w = \<lparr> log = [], drive = drive_files w, local = tmp_files w \<rparr>"

text \<open>
  \<^verbatim>\<open>
  except Exception as e:
      print(f"[ERROR] Error generating PDF report: {e}")
      return f"Error generating PDF report: {e}", 500
  \<close>
\<close>

definition generate_report :: "world \<Rightarrow> response \<times> state" where
  "generate_report w =
     (case try_body w (initial w) of
        (Inr r, st) \<Rightarrow> (r, st)
      | (Inl e, st) \<Rightarrow>
          ((''Error generating PDF report: '' @ e, 500),
           st\<lparr>log := log st @ [Error_generating e]\<rparr>))"

section \<open>Reaching step 7, and example inputs\<close>

text \<open>
  The run gets as far as step 7 with the table \<open>df\<close>, read from the file \<open>f\<close> of the
  folder: both environment variables are set and not empty, no call before step 7
  raises, the spreadsheet is found, it parses, and no required column is missing.
\<close>

definition reaches_report :: "world \<Rightarrow> string \<Rightarrow> drive_file \<Rightarrow> dataframe \<Rightarrow> bool" where
  "reaches_report w folder_id f df =
     ((case environ w ''GOOGLE_SERVICE_ACCOUNT_JSON'' of None \<Rightarrow> False | Some j \<Rightarrow> j \<noteq> []) \<and>
      environ w ''DRIVE_FOLDER_ID'' = Some folder_id \<and> folder_id \<noteq> [] \<and>
      fault w Json_loads = None \<and> fault w From_service_account_info = None \<and>
      fault w Build = None \<and> fault w Files_list_input = None \<and>
      fault w Next_chunk = None \<and>
      (case list_files folder_id ''failed_logs.xlsx'' (drive_files w) of
         [] \<Rightarrow> False | g # _ \<Rightarrow> g = f) \<and>
      read_excel w (file_content f) = Inr df \<and>
      first_missing required_cols (columns df) = None)"

text \<open>
  A folder that holds the spreadsheet, a trashed old report and a live report, and a
  table of three rows, one of them without a dataset.
\<close>

definition example_rows :: "row list" where
  "example_rows =
     [\<lparr>date = Some 1, dataset = Some ''sales'', reason = Some ''timeout''\<rparr>,
      \<lparr>date = Some 2, dataset = None, reason = Some ''quota''\<rparr>,
      \<lparr>date = Some 3, dataset = Some ''sales'', reason = None\<rparr>]"

definition example_table :: dataframe where
  "example_table = \<lparr> columns = [''date'', ''dataset'', ''reason''], records = example_rows \<rparr>"

definition example_input :: drive_file where
  "example_input =
     \<lparr> file_id = ''in1'', file_name = ''failed_logs.xlsx'', file_parents = [''folder''],
       file_trashed = False, file_content = Bytes [80, 75] \<rparr>"

definition example_world :: world where
  "example_world =
     \<lparr> environ = (\<lambda>k. if k = ''GOOGLE_SERVICE_ACCOUNT_JSON'' then Some ''{}''
                        else if k = ''DRIVE_FOLDER_ID'' then Some ''folder'' else None),
       fault = (\<lambda>c. None),
       drive_files =
         [example_input,
          \<lparr> file_id = ''rep0'', file_name = ''failed_logs_report.pdf'',
            file_parents = [''folder''], file_trashed = True, file_content = Bytes [] \<rparr>,
          \<lparr> file_id = ''rep1'', file_name = ''failed_logs_report.pdf'',
            file_parents = [''folder''], file_trashed = False, file_content = Bytes [] \<rparr>],
       download_progress = [50, 100],
       workbook = (\<lambda>b. Inr example_table),
       str_date = (\<lambda>d. case d of None \<Rightarrow> ''NaT'' | Some t \<Rightarrow> str_nat (nat t)),
       str_null = (\<lambda>r. case r of (d, None, None) \<Rightarrow> ''NaT'' | _ \<Rightarrow> ''nan''),
       empty_plot_error = ''index 0 is out of bounds for axis 0 with size 0'',
       tmp_files = \<lparr> chart_file = None, pdf_file = None \<rparr>,
       created_id = ''new1'' \<rparr>"

text \<open>The same world with a table that has no \<^verbatim>\<open>date\<close> column.\<close>

definition example_world_no_date :: world where
  "example_world_no_date =
     example_world\<lparr> workbook :=
       (\<lambda>b. Inr \<lparr> columns = [''dataset'', ''reason''], records = example_rows \<rparr>) \<rparr>"

text \<open>The same world with a table that has the three columns and no row.\<close>

definition example_world_empty :: world where
  "example_world_empty =
     example_world\<lparr> workbook :=
       (\<lambda>b. Inr \<lparr> columns = [''date'', ''dataset'', ''reason''], records = [] \<rparr>) \<rparr>"

text \<open>The same world with a folder that holds no live report, only the trashed one.\<close>

definition example_world_first_run :: world where
  "example_world_first_run =
     example_world\<lparr> drive_files :=
       [example_input,
        \<lparr> file_id = ''rep0'', file_name = ''failed_logs_report.pdf'',
          file_parents = [''folder''], file_trashed = True, file_content = Bytes [] \<rparr>] \<rparr>"

text \<open>One row whose dataset has 150 words.\<close>

definition example_rows_long :: "row list" where
  "example_rows_long =
     [\<lparr>date = Some 1, dataset = Some (concat (replicate 150 ''a '')),
       reason = Some ''timeout''\<rparr>]"


section \<open>Facts about the pandas operations\<close>

lemma length_dropna: "length (dropna vs) = length (filter (\<lambda>v. v \<noteq> None) vs)"
  by (induction vs rule: dropna.induct) auto

lemma count_dropna: "count_list (dropna vs) k = length (filter (\<lambda>v. v = Some k) vs)"
  by (induction vs rule: dropna.induct) auto

lemma set_dropna: "set (dropna vs) = {k. Some k \<in> set vs}"
  by (induction vs rule: dropna.induct) auto

lemma sum_tally: "sum_list (map snd (tally kcs k)) = Suc (sum_list (map snd kcs))"
  by (induction kcs k rule: tally.induct) auto

lemma sum_foldl_tally:
  "sum_list (map snd (foldl tally kcs ks)) = sum_list (map snd kcs) + length ks"
  by (induction ks arbitrary: kcs) (auto simp: sum_tally)

lemma keys_tally: "fst ` set (tally kcs k) = insert k (fst ` set kcs)"
  by (induction kcs k rule: tally.induct) auto

lemma distinct_tally: "distinct (map fst kcs) \<Longrightarrow> distinct (map fst (tally kcs k))"
proof (induction kcs k rule: tally.induct)
  case (1 k)
  then show ?case by simp
next
  case (2 k' c kcs k)
  then have "k' \<notin> fst ` set (tally kcs k)" if "k' \<noteq> k"
    using that by (simp add: keys_tally)
  with 2 show ?case by auto
qed

lemma map_of_tally:
  "map_of (tally kcs k) k' =
     (if k' = k then Some (Suc (case map_of kcs k of None \<Rightarrow> 0 | Some c \<Rightarrow> c))
      else map_of kcs k')"
  by (induction kcs k rule: tally.induct) auto

lemma distinct_foldl_tally:
  "distinct (map fst kcs) \<Longrightarrow> distinct (map fst (foldl tally kcs ks))"
  by (induction ks arbitrary: kcs) (auto simp: distinct_tally)

lemma map_of_foldl_tally:
  "map_of (foldl tally kcs ks) k =
     (if k \<in> set ks
      then Some (count_list ks k + (case map_of kcs k of None \<Rightarrow> 0 | Some c \<Rightarrow> c))
      else map_of kcs k)"
  by (induction ks arbitrary: kcs) (auto simp: map_of_tally)

lemma entries_foldl_tally:
  "(k, c) \<in> set (foldl tally [] ks) \<longleftrightarrow> k \<in> set ks \<and> c = count_list ks k"
proof -
  have d: "distinct (map fst (foldl tally [] ks))"
    by (rule distinct_foldl_tally) simp
  have "(k, c) \<in> set (foldl tally [] ks) \<longleftrightarrow> map_of (foldl tally [] ks) k = Some c"
    using d by simp
  then show ?thesis
    by (auto simp: map_of_foldl_tally)
qed

text \<open>
  An entry of \<open>value_counts\<close> is a non-null value of the column with the number of
  cells that hold it; no value has two entries; the counts add up to the number of
  non-null cells.
\<close>

lemma set_value_counts:
  "(k, c) \<in> set (value_counts vs) \<longleftrightarrow>
     Some k \<in> set vs \<and> c = length (filter (\<lambda>v. v = Some k) vs)"
  by (simp add: value_counts_def entries_foldl_tally set_dropna count_dropna)

lemma distinct_value_counts: "distinct (map fst (value_counts vs))"
proof -
  have "mset (map fst (value_counts vs)) = mset (map fst (foldl tally [] (dropna vs)))"
    by (simp add: value_counts_def)
  moreover have "distinct (map fst (foldl tally [] (dropna vs)))"
    by (rule distinct_foldl_tally) simp
  ultimately show ?thesis
    by (metis mset_eq_imp_distinct_iff)
qed

lemma sum_value_counts:
  "counts_sum (value_counts vs) = length (filter (\<lambda>v. v \<noteq> None) vs)"
proof -
  have "mset (map snd (value_counts vs)) = mset (map snd (foldl tally [] (dropna vs)))"
    by (simp add: value_counts_def)
  then have "sum_list (map snd (value_counts vs)) = sum_list (map snd (foldl tally [] (dropna vs)))"
    by (metis sum_mset_sum_list)
  then show ?thesis
    by (simp add: counts_sum_def sum_foldl_tally length_dropna)
qed

lemma argmax_from_mem: "argmax_from b kcs \<in> set (b # kcs)"
  by (induction b kcs rule: argmax_from.induct) auto

lemma argmax_from_ge_best: "snd b \<le> snd (argmax_from b kcs)"
proof (induction kcs arbitrary: b)
  case Nil
  show ?case by simp
next
  case (Cons kc kcs)
  have "snd b \<le> snd (if snd b < snd kc then kc else b)" by simp
  also have "\<dots> \<le> snd (argmax_from (if snd b < snd kc then kc else b) kcs)"
    by (rule Cons.IH)
  finally show ?case by simp
qed

lemma argmax_from_ge: "kc \<in> set kcs \<Longrightarrow> snd kc \<le> snd (argmax_from b kcs)"
proof (induction kcs arbitrary: b)
  case Nil
  then show ?case by simp
next
  case (Cons kc' kcs)
  show ?case
  proof (cases "kc = kc'")
    case True
    have "snd kc \<le> snd (if snd b < snd kc' then kc' else b)"
      using True by simp
    also have "\<dots> \<le> snd (argmax_from (if snd b < snd kc' then kc' else b) kcs)"
      by (rule argmax_from_ge_best)
    finally show ?thesis by simp
  next
    case False
    with Cons.prems have "kc \<in> set kcs" by simp
    then show ?thesis by (simp add: Cons.IH)
  qed
qed

text \<open>
  On a column with a non-null cell, \<open>idxmax\<close> of \<open>value_counts\<close> does not raise: it
  returns a value of the column that no other value outnumbers.
\<close>

lemma idxmax_value_counts:
  assumes "\<not> isnull_all vs"
  shows "\<exists>k. idxmax (value_counts vs) = Inr k \<and> Some k \<in> set vs \<and>
           (\<forall>k'. length (filter (\<lambda>v. v = Some k') vs) \<le> length (filter (\<lambda>v. v = Some k) vs))"
proof -
  from assms obtain k0 where k0: "Some k0 \<in> set vs"
    by (auto simp: isnull_all_def list_all_iff)
  then have "(k0, length (filter (\<lambda>v. v = Some k0) vs)) \<in> set (value_counts vs)"
    by (simp add: set_value_counts)
  then obtain kc rest where vc: "value_counts vs = kc # rest"
    by (cases "value_counts vs") auto
  define best where "best = argmax_from kc rest"
  have res: "idxmax (value_counts vs) = Inr (fst best)"
    by (simp add: idxmax_def vc best_def)
  have mem: "best \<in> set (value_counts vs)"
    unfolding best_def vc by (rule argmax_from_mem)
  have inset: "Some (fst best) \<in> set vs"
    and cnt: "snd best = length (filter (\<lambda>v. v = Some (fst best)) vs)"
    using mem set_value_counts [of "fst best" "snd best" vs] by simp_all
  have ge: "length (filter (\<lambda>v. v = Some k') vs) \<le> snd best" for k'
  proof (cases "Some k' \<in> set vs")
    case True
    then have "(k', length (filter (\<lambda>v. v = Some k') vs)) \<in> set (kc # rest)"
      by (simp add: set_value_counts flip: vc)
    then have "snd (k', length (filter (\<lambda>v. v = Some k') vs)) \<le> snd best"
      unfolding best_def
      using argmax_from_ge [of _ rest kc] argmax_from_ge_best [of kc rest] by auto
    then show ?thesis by simp
  next
    case False
    then have "filter (\<lambda>v. v = Some k') vs = []"
      by (auto simp: filter_empty_conv)
    then show ?thesis by simp
  qed
  show ?thesis
    using res inset ge cnt by auto
qed

section \<open>The aggregation\<close>

text \<open>The aggregation never raises: the guard keeps \<open>idxmax\<close> off an empty Series.\<close>

lemma aggregate_total: "\<exists>s. aggregate rs = Inr s"
proof (cases "isnull_all (map reason rs)")
  case True
  then show ?thesis by (simp add: aggregate_def most_common_reason_def)
next
  case False
  from idxmax_value_counts [OF False] obtain k where "idxmax (value_counts (map reason rs)) = Inr k"
    by blast
  with False show ?thesis by (simp add: aggregate_def most_common_reason_def)
qed

lemma aggregate_fields:
  assumes "aggregate rs = Inr s"
  shows "total_failures s = length rs"
    and "by_dataset s = value_counts (map dataset rs)"
    and "most_common_reason rs = Inr (most_common_error s)"
    and "most_recent s = series_max (map date rs)"
    and "recent_failures s = head 5 (map restrict_cols rs)"
  using assms by (auto simp: aggregate_def split: sum.splits)

lemma null_plus_nonnull:
  "length (filter (\<lambda>r. dataset r \<noteq> None) rs) + null_datasets rs = length rs"
  unfolding null_datasets_def by (induction rs) auto

lemmas agg_defs = aggregate_def most_common_reason_def isnull_all_def value_counts_def
  idxmax_def series_max_def head_def restrict_cols_def

text \<open>
  Claim C1, as amended. The counts of \<open>by_dataset\<close> and the number of rows without a
  dataset add up to \<open>total\<close>; the counts alone add up to \<open>total\<close> exactly when no row
  lacks its dataset. (\<open>value_counts\<close> drops null values.)
\<close>

theorem by_dataset_sum_and_nulls:
  "\<exists>s. aggregate rs = Inr s \<and> total_failures s = length rs \<and>
       counts_sum (by_dataset s) + null_datasets rs = total_failures s \<and>
       (counts_sum (by_dataset s) = total_failures s) = (null_datasets rs = 0)"
proof -
  obtain s where s: "aggregate rs = Inr s"
    using aggregate_total by blast
  have "counts_sum (by_dataset s) = length (filter (\<lambda>r. dataset r \<noteq> None) rs)"
    by (simp add: aggregate_fields(2) [OF s] sum_value_counts comp_def)
  with null_plus_nonnull [of rs]
  have "counts_sum (by_dataset s) + null_datasets rs = length rs"
    by (simp only:)
  then show ?thesis
    using s aggregate_fields(1) [OF s] by auto
qed

text \<open>
  Two rows, the second without a dataset: the counts add up to 1 and \<open>total\<close> is 2.
\<close>

theorem by_dataset_sum_counterexample:
  "map_sum id (\<lambda>s. (counts_sum (by_dataset s), total_failures s))
     (aggregate [\<lparr>date = Some 1, dataset = Some ''sales'', reason = Some ''timeout''\<rparr>,
                 \<lparr>date = Some 2, dataset = None, reason = Some ''quota''\<rparr>])
   = Inr (1, 2)"
  by (simp add: agg_defs counts_sum_def)

lemma most_common_reason_max:
  assumes "\<not> isnull_all (map reason rs)"
  shows "\<exists>v. most_common_reason rs = Inr v \<and> Some v \<in> set (map reason rs) \<and>
             (\<forall>v'. reason_freq rs v' \<le> reason_freq rs v)"
  using idxmax_value_counts [OF assms] assms
  by (simp add: most_common_reason_def reason_freq_def comp_def)

text \<open>No reason cell of a loaded table holds the sentinel's text: it is an NA literal.\<close>

lemma na_cell_not_literal: "na_cell v = Some t \<Longrightarrow> t \<notin> set na_values"
  by (cases v) (simp_all add: na_cell_def split: if_splits)

lemma sentinel_is_na_literal: "''N/A'' \<in> set na_values"
  by (simp add: na_values_def)

lemma loaded_reason_not_sentinel:
  "Some ''N/A'' \<notin> set (map reason (records (keep_default_na df)))"
proof -
  have h: "na_cell v \<noteq> Some ''N/A''" for v
    using na_cell_not_literal [of v "''N/A''"] sentinel_is_na_literal by blast
  have eq: "map reason (records (keep_default_na df))
      = map (\<lambda>r. na_cell (reason r)) (records df)"
    by (simp add: keep_default_na_def na_row_def)
  have "Some ''N/A'' \<notin> set (map (\<lambda>r. na_cell (reason r)) rs)" for rs
    by (induction rs) (simp_all add: h [THEN not_sym])
  then show ?thesis
    unfolding eq .
qed

text \<open>
  Claim C3, as amended. For the rows of every table as \<^verbatim>\<open>read_excel\<close> loads it:
  \<open>most_common_reason\<close> is the sentinel if and only if every reason is null; otherwise
  it is a non-null reason of the rows that no other reason outnumbers, and so the reason
  with the strictly highest frequency whenever there is one.
\<close>

theorem most_common_reason_maximal:
  assumes "rs = records (keep_default_na df)"
  shows "((most_common_reason rs = Inr ''N/A'') = isnull_all (map reason rs)) \<and>
   (\<not> isnull_all (map reason rs) \<longrightarrow>
      (\<exists>v. most_common_reason rs = Inr v \<and> Some v \<in> set (map reason rs) \<and>
           (\<forall>v'. reason_freq rs v' \<le> reason_freq rs v))) \<and>
   ((\<forall>v'. v' \<noteq> u \<longrightarrow> reason_freq rs v' < reason_freq rs u) \<longrightarrow>
      most_common_reason rs = Inr u)"
proof (cases "isnull_all (map reason rs)")
  case True
  then have na: "most_common_reason rs = Inr ''N/A''"
    by (simp add: most_common_reason_def)
  have "reason_freq rs v = 0" for v
    using True by (auto simp: reason_freq_def isnull_all_def list_all_iff filter_empty_conv)
  then have "\<not> (\<forall>v'. v' \<noteq> u \<longrightarrow> reason_freq rs v' < reason_freq rs u)"
    by (metis less_nat_zero_code list.distinct(1) not_Cons_self2)
  with True na show ?thesis by blast
next
  case False
  from most_common_reason_max [OF False] obtain v where
    v: "most_common_reason rs = Inr v" "Some v \<in> set (map reason rs)"
       "\<forall>v'. reason_freq rs v' \<le> reason_freq rs v"
    by blast
  from v(2) loaded_reason_not_sentinel [of df] assms have "v \<noteq> ''N/A''"
    by auto
  with v(1) have notna: "most_common_reason rs \<noteq> Inr ''N/A''"
    by simp
  have strict: "most_common_reason rs = Inr u"
    if "\<forall>v'. v' \<noteq> u \<longrightarrow> reason_freq rs v' < reason_freq rs u"
  proof (rule ccontr)
    assume "most_common_reason rs \<noteq> Inr u"
    with v(1) have "v \<noteq> u" by auto
    with that have "reason_freq rs v < reason_freq rs u" by simp
    with v(3) show False by (simp add: not_less [symmetric])
  qed
  from v strict False notna show ?thesis by auto
qed

theorem most_common_reason_maximal_witness:
  "most_common_reason (records (keep_default_na
      \<lparr> columns = [''date'', ''dataset'', ''reason''],
        records = [\<lparr>date = Some 1, dataset = Some ''sales'', reason = Some ''timeout''\<rparr>,
                   \<lparr>date = Some 2, dataset = None, reason = Some ''N/A''\<rparr>,
                   \<lparr>date = Some 3, dataset = Some ''ops'', reason = Some ''quota''\<rparr>,
                   \<lparr>date = Some 4, dataset = Some ''ops'', reason = Some ''N/A''\<rparr>,
                   \<lparr>date = Some 5, dataset = Some ''ops'', reason = Some ''quota''\<rparr>,
                   \<lparr>date = Some 6, dataset = Some ''ops'', reason = Some ''N/A''\<rparr>] \<rparr>))
     = Inr ''quota'' \<and>
   isnull_all (map reason (records (keep_default_na
      \<lparr> columns = [''date'', ''dataset'', ''reason''],
        records = [\<lparr>date = Some 1, dataset = Some ''sales'', reason = Some ''N/A''\<rparr>,
                   \<lparr>date = Some 2, dataset = Some ''ops'', reason = None\<rparr>] \<rparr>))) \<and>
   most_common_reason (records (keep_default_na
      \<lparr> columns = [''date'', ''dataset'', ''reason''],
        records = [\<lparr>date = Some 1, dataset = Some ''sales'', reason = Some ''N/A''\<rparr>,
                   \<lparr>date = Some 2, dataset = Some ''ops'', reason = None\<rparr>] \<rparr>))
     = Inr ''N/A''"
proof -
  let ?df = "\<lparr> columns = [''date'', ''dataset'', ''reason''],
        records = [\<lparr>date = Some 1, dataset = Some ''sales'', reason = Some ''timeout''\<rparr>,
                   \<lparr>date = Some 2, dataset = None, reason = Some ''N/A''\<rparr>,
                   \<lparr>date = Some 3, dataset = Some ''ops'', reason = Some ''quota''\<rparr>,
                   \<lparr>date = Some 4, dataset = Some ''ops'', reason = Some ''N/A''\<rparr>,
                   \<lparr>date = Some 5, dataset = Some ''ops'', reason = Some ''quota''\<rparr>,
                   \<lparr>date = Some 6, dataset = Some ''ops'', reason = Some ''N/A''\<rparr>] \<rparr>"
  let ?nf = "\<lparr> columns = [''date'', ''dataset'', ''reason''],
        records = [\<lparr>date = Some 1, dataset = Some ''sales'', reason = Some ''N/A''\<rparr>,
                   \<lparr>date = Some 2, dataset = Some ''ops'', reason = None\<rparr>] \<rparr>"
  have h2: "\<forall>v'. v' \<noteq> ''quota'' \<longrightarrow>
      reason_freq (records (keep_default_na ?df)) v' < reason_freq (records (keep_default_na ?df)) ''quota''"
    by (simp add: reason_freq_def keep_default_na_def na_row_def na_cell_def na_values_def)
  have h3: "isnull_all (map reason (records (keep_default_na ?nf)))"
    by (simp add: isnull_all_def keep_default_na_def na_row_def na_cell_def na_values_def)
  from most_common_reason_maximal [of "records (keep_default_na ?df)" ?df "''quota''"] h2
  have "most_common_reason (records (keep_default_na ?df)) = Inr ''quota''"
    by blast
  moreover
  from most_common_reason_maximal [of "records (keep_default_na ?nf)" ?nf "''quota''"] h3
  have "most_common_reason (records (keep_default_na ?nf)) = Inr ''N/A''"
    by blast
  ultimately show ?thesis
    using h3 by blast
qed

text \<open>
  Two rows with two different reasons, once each: the result is the first one, and
  neither frequency is above the other, so no reason has the strictly highest frequency.
\<close>

theorem most_common_reason_tie_counterexample:
  "most_common_reason [\<lparr>date = Some 1, dataset = Some ''sales'', reason = Some ''timeout''\<rparr>,
                       \<lparr>date = Some 2, dataset = Some ''ops'', reason = Some ''quota''\<rparr>]
     = Inr ''timeout'' \<and>
   \<not> reason_freq [\<lparr>date = Some 1, dataset = Some ''sales'', reason = Some ''timeout''\<rparr>,
                  \<lparr>date = Some 2, dataset = Some ''ops'', reason = Some ''quota''\<rparr>] ''quota''
     < reason_freq [\<lparr>date = Some 1, dataset = Some ''sales'', reason = Some ''timeout''\<rparr>,
                    \<lparr>date = Some 2, dataset = Some ''ops'', reason = Some ''quota''\<rparr>] ''timeout'' \<and>
   \<not> reason_freq [\<lparr>date = Some 1, dataset = Some ''sales'', reason = Some ''timeout''\<rparr>,
                  \<lparr>date = Some 2, dataset = Some ''ops'', reason = Some ''quota''\<rparr>] ''timeout''
     < reason_freq [\<lparr>date = Some 1, dataset = Some ''sales'', reason = Some ''timeout''\<rparr>,
                    \<lparr>date = Some 2, dataset = Some ''ops'', reason = Some ''quota''\<rparr>] ''quota''"
  by (simp add: most_common_reason_def isnull_all_def value_counts_def idxmax_def reason_freq_def)

text \<open>
  Claim C4. \<open>recent_top5\<close> is the first five rows in the order of the table, each
  restricted to date, dataset and reason: row \<open>i\<close> of it is row \<open>i\<close> of the table, whatever
  the dates are.
\<close>

theorem recent_failures_first_five:
  "\<exists>s. aggregate rs = Inr s \<and>
       recent_failures s = map (\<lambda>r. (date r, dataset r, reason r)) (take 5 rs) \<and>
       length (recent_failures s) = min 5 (length rs) \<and>
       (\<forall>i < length (recent_failures s).
          recent_failures s ! i = (date (rs ! i), dataset (rs ! i), reason (rs ! i)))"
proof -
  obtain s where s: "aggregate rs = Inr s"
    using aggregate_total by blast
  have r: "recent_failures s = map (\<lambda>r. (date r, dataset r, reason r)) (take 5 rs)"
    using aggregate_fields(5) [OF s]
    by (simp add: head_def restrict_cols_def take_map)
  then have "length (recent_failures s) = min 5 (length rs)"
    by (simp add: min.commute)
  moreover have "recent_failures s ! i = (date (rs ! i), dataset (rs ! i), reason (rs ! i))"
    if "i < length (recent_failures s)" for i
    using that by (simp add: r)
  ultimately show ?thesis
    using s r by blast
qed

theorem recent_failures_first_five_witness:
  "aggregate [\<lparr>date = Some 3, dataset = Some ''a'', reason = Some ''r1''\<rparr>,
              \<lparr>date = Some 9, dataset = Some ''b'', reason = Some ''r2''\<rparr>,
              \<lparr>date = Some 1, dataset = Some ''c'', reason = None\<rparr>,
              \<lparr>date = Some 7, dataset = None, reason = Some ''r4''\<rparr>,
              \<lparr>date = Some 2, dataset = Some ''e'', reason = Some ''r5''\<rparr>,
              \<lparr>date = Some 8, dataset = Some ''f'', reason = Some ''r6''\<rparr>]
   = Inr \<lparr> total_failures = 6,
           by_dataset = [(''a'', 1), (''b'', 1), (''c'', 1), (''e'', 1), (''f'', 1)],
           most_common_error = ''r1'', most_recent = Some 9,
           recent_failures =
             [(Some 3, Some ''a'', Some ''r1''), (Some 9, Some ''b'', Some ''r2''),
              (Some 1, Some ''c'', None), (Some 7, None, Some ''r4''),
              (Some 2, Some ''e'', Some ''r5'')] \<rparr>"
proof -
  let ?rs = "[\<lparr>date = Some 3, dataset = Some ''a'', reason = Some ''r1''\<rparr>,
              \<lparr>date = Some 9, dataset = Some ''b'', reason = Some ''r2''\<rparr>,
              \<lparr>date = Some 1, dataset = Some ''c'', reason = None\<rparr>,
              \<lparr>date = Some 7, dataset = None, reason = Some ''r4''\<rparr>,
              \<lparr>date = Some 2, dataset = Some ''e'', reason = Some ''r5''\<rparr>,
              \<lparr>date = Some 8, dataset = Some ''f'', reason = Some ''r6''\<rparr>]"
  from recent_failures_first_five [of ?rs] obtain s where s: "aggregate ?rs = Inr s"
    and r: "recent_failures s = map (\<lambda>r. (date r, dataset r, reason r)) (take 5 ?rs)"
    by blast
  have "aggregate ?rs = Inr \<lparr> total_failures = 6,
           by_dataset = [(''a'', 1), (''b'', 1), (''c'', 1), (''e'', 1), (''f'', 1)],
           most_common_error = ''r1'', most_recent = Some 9,
           recent_failures = recent_failures s \<rparr>"
    using s
    by (simp add: aggregate_def most_common_reason_def isnull_all_def value_counts_def
        idxmax_def series_max_def split: sum.splits) auto
  then show ?thesis
    by (simp add: r)
qed

section \<open>The summary text\<close>


subsection \<open>Splitting and joining words\<close>

lemma split_from_nonspace:
  "list_all (\<lambda>c. \<not> isspace c) p \<Longrightarrow> split_from cur (p @ rest) = split_from (rev p @ cur) rest"
  by (induction p arbitrary: cur) auto

lemma split_from_words:
  "list_all (\<lambda>c. \<not> isspace c) cur \<Longrightarrow>
     list_all (\<lambda>p. p \<noteq> [] \<and> list_all (\<lambda>c. \<not> isspace c) p) (split_from cur cs)"
  by (induction cur cs rule: split_from.induct) auto

lemma words_split: "list_all (\<lambda>p. p \<noteq> [] \<and> list_all (\<lambda>c. \<not> isspace c) p) (split s)"
  by (simp add: split_def split_from_words)

lemma isspace_space: "isspace CHR '' ''"
  by (simp add: isspace_def)

lemma dots_nonspace: "list_all (\<lambda>c. \<not> isspace c) ''...''"
  by (simp add: isspace_def)

text \<open>
  Splitting words joined by single spaces gives the words back, and a tail without
  whitespace ends up on the last word.
\<close>

lemma split_join_append:
  assumes "ps \<noteq> []" "list_all (\<lambda>p. p \<noteq> [] \<and> list_all (\<lambda>c. \<not> isspace c) p) ps"
    "list_all (\<lambda>c. \<not> isspace c) t"
  shows "split_from [] (join '' '' ps @ t) = butlast ps @ [last ps @ t]"
  using assms
proof (induction "'' ''" ps rule: join.induct)
  case 1
  then show ?case by simp
next
  case (2 p)
  then have pt: "list_all (\<lambda>c. \<not> isspace c) (p @ t)" and ne: "p \<noteq> []"
    by simp_all
  have "split_from [] ((p @ t) @ []) = split_from (rev (p @ t) @ []) []"
    by (rule split_from_nonspace [OF pt])
  with ne show ?case by simp
next
  case (3 p q ps)
  then have p: "list_all (\<lambda>c. \<not> isspace c) p" "p \<noteq> []"
    by simp_all
  have "split_from [] (join '' '' (p # q # ps) @ t)
      = split_from (rev p) (CHR '' '' # join '' '' (q # ps) @ t)"
    using split_from_nonspace [OF p(1), of "[]"] by simp
  also have "\<dots> = p # split_from [] (join '' '' (q # ps) @ t)"
    using p(2) by (simp add: isspace_space)
  also have "split_from [] (join '' '' (q # ps) @ t) = butlast (q # ps) @ [last (q # ps) @ t]"
    using 3 by simp
  finally show ?case by simp
qed

lemma split_from_replicate:
  "split_from [] (concat (replicate n ''a '') @ rest) = replicate n ''a'' @ split_from [] rest"
  by (induction n) (simp_all add: isspace_def)

text \<open>What the cap does to any text, in terms of its words.\<close>

lemma cap_words_long:
  assumes h: "300 < length (split s)"
  shows "cap_words s = join '' '' (take 300 (split s)) @ ''...''"
    and "split (cap_words s) = take 299 (split s) @ [split s ! 299 @ ''...'']"
    and "length (split (cap_words s)) = 300"
proof -
  let ?ws = "take 300 (split s)"
  show c: "cap_words s = join '' '' ?ws @ ''...''"
    using h by (simp add: cap_words_def Let_def)
  have ne: "?ws \<noteq> []"
    using h by auto
  have w: "list_all (\<lambda>p. p \<noteq> [] \<and> list_all (\<lambda>c. \<not> isspace c) p) ?ws"
    using words_split [of s] by (auto simp: list_all_iff dest: in_set_takeD)
  have "split (cap_words s) = butlast ?ws @ [last ?ws @ ''...'']"
    using split_join_append [OF ne w dots_nonspace] by (simp add: c split_def)
  moreover have "butlast ?ws = take 299 (split s)"
    using h by (simp add: butlast_take)
  moreover have "last ?ws = split s ! 299"
  proof -
    have "last ?ws = ?ws ! (length ?ws - 1)"
      by (rule last_conv_nth [OF ne])
    also have "length ?ws = 300"
      using h by simp
    finally show ?thesis by simp
  qed
  ultimately show sp: "split (cap_words s) = take 299 (split s) @ [split s ! 299 @ ''...'']"
    by simp
  then show "length (split (cap_words s)) = 300"
    using h by simp
qed

lemma cap_words_short: "length (split s) \<le> 300 \<Longrightarrow> cap_words s = s"
  by (simp add: cap_words_def Let_def)

section \<open>The run\<close>

lemmas step_defs = then_do_def returns_def raises_def tell_def external_def

lemmas fetch_defs = try_body_def fetch_and_report_def files_list_def download_def
  load_table_def validate_and_report_def initial_def

lemmas report_defs = generate_pdf_def plot_chart_def write_pdf_def upload_report_def
  media_file_upload_def files_list_def files_update_def files_create_def

lemmas load_defs = read_excel_def keep_default_na_def na_row_def na_cell_def na_values_def

lemmas example_defs = example_world_def example_input_def example_table_def example_rows_def

lemma tell_all_log: "tell_all ls st = (Inr (), st\<lparr>log := log st @ ls\<rparr>)"
  by (induction ls arbitrary: st) (simp_all add: step_defs)

lemma first_missing_Some:
  "first_missing cs cols = Some c \<Longrightarrow> c \<in> set cs \<and> c \<notin> set cols"
  by (induction cs) (auto split: if_splits)

lemma first_missing_None: "(first_missing cs cols = None) = (set cs \<subseteq> set cols)"
  by (induction cs) auto

text \<open>
  Claim C7. When the run has loaded a table that lacks a required column, it returns
  the validation error that names the first missing column, with status 500; the log
  has no line of step 7, the remote store is as it was (no PDF uploaded) and no local
  file is written.
\<close>

theorem missing_column_fails_validation:
  assumes env: "environ w ''GOOGLE_SERVICE_ACCOUNT_JSON'' = Some j" "j \<noteq> []"
               "environ w ''DRIVE_FOLDER_ID'' = Some folder_id" "folder_id \<noteq> []"
    and calls: "fault w Json_loads = None" "fault w From_service_account_info = None"
               "fault w Build = None" "fault w Files_list_input = None"
               "fault w Next_chunk = None"
    and found: "list_files folder_id ''failed_logs.xlsx'' (drive_files w) = f # fs"
    and parsed: "read_excel w (file_content f) = Inr df"
    and missing: "\<not> set required_cols \<subseteq> set (columns df)"
  shows "\<exists>c. first_missing required_cols (columns df) = Some c \<and>
             c \<in> set required_cols \<and> c \<notin> set (columns df) \<and>
             fst (generate_report w) = (''Error: Required column missing: '' @ c, 500) \<and>
             Log_generating \<notin> set (log (snd (generate_report w))) \<and>
             drive (snd (generate_report w)) = drive_files w \<and>
             local (snd (generate_report w)) = tmp_files w"
proof -
  from missing obtain c where c: "first_missing required_cols (columns df) = Some c"
    using first_missing_None [of required_cols "columns df"]
    by (cases "first_missing required_cols (columns df)") auto
  have run: "generate_report w =
      ((''Error: Required column missing: '' @ c, 500),
       \<lparr> log = [Log_starting, Log_credentials_created, Log_using_folder folder_id,
                Log_searching, Log_files_found (map file_id (f # fs)),
                Log_found_file_id (file_id f), Log_downloading]
               @ map Log_download_progress (download_progress w)
               @ [Log_downloaded, Log_loading,
                  Log_loaded (length (records df)) (length (columns df)),
                  Error_column_missing c],
         drive = drive_files w, local = tmp_files w \<rparr>)"
    using env calls found parsed c
    by (simp add: generate_report_def fetch_defs step_defs tell_all_log)
  show ?thesis
    using c first_missing_Some [OF c] by (auto simp: run)
qed

theorem missing_column_fails_validation_witness:
  "\<not> set required_cols \<subseteq> set [''dataset'', ''reason''] \<and>
   fst (generate_report example_world_no_date) = (''Error: Required column missing: date'', 500) \<and>
   Log_generating \<notin> set (log (snd (generate_report example_world_no_date))) \<and>
   drive (snd (generate_report example_world_no_date)) = drive_files example_world_no_date"
proof -
  let ?w = example_world_no_date
  let ?df = "\<lparr> columns = [''dataset'', ''reason''], records = example_rows \<rparr>"
  have env: "environ ?w ''GOOGLE_SERVICE_ACCOUNT_JSON'' = Some ''{}''" "''{}'' \<noteq> []"
      "environ ?w ''DRIVE_FOLDER_ID'' = Some ''folder''" "''folder'' \<noteq> []"
    by (simp_all add: example_world_no_date_def example_defs)
  have calls: "fault ?w Json_loads = None" "fault ?w From_service_account_info = None"
      "fault ?w Build = None" "fault ?w Files_list_input = None" "fault ?w Next_chunk = None"
    by (simp_all add: example_world_no_date_def example_defs)
  have found: "list_files ''folder'' ''failed_logs.xlsx'' (drive_files ?w)
      = example_input # []"
    by (simp add: example_world_no_date_def example_defs list_files_def)
  have parsed: "read_excel ?w (file_content example_input) = Inr ?df"
    by (simp add: example_world_no_date_def example_defs load_defs)
  have missing: "\<not> set required_cols \<subseteq> set (columns ?df)"
    by (simp add: required_cols_def)
  have fm: "first_missing required_cols (columns ?df) = Some ''date''"
    by (simp add: required_cols_def)
  from missing_column_fails_validation [OF env calls found parsed missing] fm missing
  show ?thesis
    by auto
qed

subsection \<open>Step 7 and step 8\<close>


text \<open>With no bar to draw, step 7 raises at the chart and writes nothing.\<close>

lemma generate_pdf_no_bars:
  assumes "aggregate (records df) = Inr s" and "by_dataset s = []"
  shows "generate_pdf w folder_id df st =
           (Inl (case fault w Plot of Some e \<Rightarrow> e | None \<Rightarrow> empty_plot_error w),
            st\<lparr>log := log st @ [Log_generating]\<rparr>)"
  using assms
  by (simp add: generate_pdf_def plot_chart_def step_defs split: option.splits)

text \<open>
  When step 7 returns at all, it returns the success response: the chart was rendered
  from \<open>by_dataset\<close>, the PDF was written with the summary text as its body and the chart
  file as its image, and the store received that PDF, over the first listed live report
  if there is one, as a new file otherwise.
\<close>

lemma generate_pdf_returns:
  assumes "generate_pdf w folder_id df st = (Inr r, st')"
  shows "r = success \<and> fault w Plot = None \<and>
         (\<exists>s doc. aggregate (records df) = Inr s \<and>
                pdf_file (local st') = Some doc \<and>
                pdf_body doc = summary_text (str_date w) (str_null w) s \<and>
                pdf_image doc = chart_file (local st') \<and>
                chart_file (local st') =
                  Some \<lparr> chart_title = ''Failures by Dataset'', chart_xlabel = ''Dataset'',
                         chart_ylabel = ''Count'', chart_bars = by_dataset s \<rparr> \<and>
                drive st' =
                  (case list_files folder_id ''failed_logs_report.pdf'' (drive st) of
                     f # _ \<Rightarrow> update_file (file_id f) (Pdf doc) (drive st)
                   | [] \<Rightarrow> drive st @
                       [new_file (created_id w) ''failed_logs_report.pdf'' folder_id (Pdf doc)]))"
proof -
  obtain s where "aggregate (records df) = Inr s"
    using aggregate_total by blast
  with assms show ?thesis
    by (auto simp: report_defs step_defs split: option.splits list.splits if_splits)
qed

lemma run_reaching:
  assumes "reaches_report w folder_id f df"
  shows "\<exists>lg. Log_generating \<notin> set lg \<and>
          try_body w (initial w) =
            generate_pdf w folder_id df \<lparr> log = lg, drive = drive_files w, local = tmp_files w \<rparr>"
proof -
  let ?lg = "[Log_starting, Log_credentials_created, Log_using_folder folder_id,
                Log_searching,
                Log_files_found (map file_id (list_files folder_id ''failed_logs.xlsx'' (drive_files w))),
                Log_found_file_id (file_id f), Log_downloading]
               @ map Log_download_progress (download_progress w)
               @ [Log_downloaded, Log_loading,
                  Log_loaded (length (records df)) (length (columns df))]"
  have "try_body w (initial w) =
      generate_pdf w folder_id df \<lparr> log = ?lg, drive = drive_files w, local = tmp_files w \<rparr>"
    using assms
    by (auto simp: reaches_report_def fetch_defs step_defs tell_all_log
        split: option.splits list.splits)
  moreover have "Log_generating \<notin> set ?lg"
    by auto
  ultimately show ?thesis
    by blast
qed

lemma run_not_reaching:
  assumes "\<forall>folder_id f df. \<not> reaches_report w folder_id f df"
  shows "\<exists>r st. try_body w (initial w) = (r, st) \<and>
       Log_generating \<notin> set (log st) \<and>
       (\<forall>resp. r = Inr resp \<longrightarrow> snd resp \<noteq> 200) \<and>
       drive st = drive_files w \<and> local st = tmp_files w"
  using assms
  by (auto simp: reaches_report_def fetch_defs step_defs tell_all_log
        split: option.splits list.splits sum.splits)

text \<open>
  Every run either stops before step 7, leaving the store and the local files as they
  were and not answering 200, or is step 7 run on a state with the store and the local
  files as they were.
\<close>

lemma run_cases:
  obtains (early) "Log_generating \<notin> set (log (snd (generate_report w)))"
      "snd (fst (generate_report w)) \<noteq> 200"
      "drive (snd (generate_report w)) = drive_files w"
      "local (snd (generate_report w)) = tmp_files w"
  | (report) folder_id df lg where
      "environ w ''DRIVE_FOLDER_ID'' = Some folder_id"
      "Log_generating \<notin> set lg"
      "try_body w (initial w) =
         generate_pdf w folder_id df \<lparr> log = lg, drive = drive_files w, local = tmp_files w \<rparr>"
proof (cases "\<exists>folder_id f df. reaches_report w folder_id f df")
  case True
  then obtain folder_id f df where r: "reaches_report w folder_id f df"
    by blast
  then have "environ w ''DRIVE_FOLDER_ID'' = Some folder_id"
    by (simp add: reaches_report_def)
  with run_reaching [OF r] report show ?thesis
    by blast
next
  case False
  then have "\<forall>folder_id f df. \<not> reaches_report w folder_id f df"
    by blast
  from run_not_reaching [OF this] obtain r st where
    b: "try_body w (initial w) = (r, st)" and
    l: "Log_generating \<notin> set (log st)" and
    s: "\<forall>resp. r = Inr resp \<longrightarrow> snd resp \<noteq> 200" and
    d: "drive st = drive_files w" "local st = tmp_files w"
    by blast
  show ?thesis
  proof (rule early)
    show "Log_generating \<notin> set (log (snd (generate_report w)))"
      using b l by (cases r) (simp_all add: generate_report_def)
    show "snd (fst (generate_report w)) \<noteq> 200"
      using b s by (cases r) (simp_all add: generate_report_def)
    show "drive (snd (generate_report w)) = drive_files w"
      using b d by (cases r) (simp_all add: generate_report_def)
    show "local (snd (generate_report w)) = tmp_files w"
      using b d by (cases r) (simp_all add: generate_report_def)
  qed
qed




lemma map_file_id_update: "map file_id (update_file fid media fs) = map file_id fs"
  by (induction fs) (simp_all add: update_file_def)

lemma content_after_update:
  "list_all (\<lambda>g. file_id g = fid \<longrightarrow> file_content g = media) (update_file fid media fs)"
  by (induction fs) (simp_all add: update_file_def)

lemma update_file_pointwise:
  "list_all2 (\<lambda>g g'. g' = (if file_id g = fid then g\<lparr>file_content := media\<rparr> else g))
     fs (update_file fid media fs)"
  by (induction fs) (simp_all add: update_file_def)

text \<open>
  Claim C9. After a successful run: if the folder held a live file named
  \<^verbatim>\<open>failed_logs_report.pdf\<close>, the store holds the same files as before, with the same
  identifiers in the same places, except that the files with the found identifier hold
  the new PDF; if it held none, the store holds one more file, and that file is the
  report: it has the identifier the store gave, the report's name, the folder as its
  parent, it is not trashed, and it holds the new PDF.
\<close>

theorem report_updated_in_place:
  assumes ok: "snd (fst (generate_report w)) = 200"
    and folder: "environ w ''DRIVE_FOLDER_ID'' = Some folder_id"
  shows "\<exists>doc. pdf_file (local (snd (generate_report w))) = Some doc \<and>
     (case list_files folder_id ''failed_logs_report.pdf'' (drive_files w) of
        f # _ \<Rightarrow>
          drive (snd (generate_report w)) = update_file (file_id f) (Pdf doc) (drive_files w) \<and>
          map file_id (drive (snd (generate_report w))) = map file_id (drive_files w) \<and>
          list_all (\<lambda>g. file_id g \<noteq> file_id f \<or> file_content g = Pdf doc)
            (drive (snd (generate_report w))) \<and>
          list_all2
            (\<lambda>g g'. g' = (if file_id g = file_id f then g\<lparr>file_content := Pdf doc\<rparr> else g))
            (drive_files w) (drive (snd (generate_report w)))
      | [] \<Rightarrow>
          drive (snd (generate_report w)) =
            drive_files w @
              [\<lparr> file_id = created_id w, file_name = ''failed_logs_report.pdf'',
                 file_parents = [folder_id], file_trashed = False,
                 file_content = Pdf doc \<rparr>])"
proof (cases w rule: run_cases)
  case early
  with ok show ?thesis by simp
next
  case (report folder_id' df lg)
  let ?st0 = "\<lparr> log = lg, drive = drive_files w, local = tmp_files w \<rparr>"
  from report(1) folder have same: "folder_id' = folder_id"
    by simp
  obtain r st' where g: "generate_pdf w folder_id df ?st0 = (r, st')"
    by (cases "generate_pdf w folder_id df ?st0") auto
  with ok report(3) same obtain resp where r: "r = Inr resp"
    by (cases r) (simp_all add: generate_report_def)
  from g r report(3) same have out: "snd (generate_report w) = st'"
    by (simp add: generate_report_def)
  from generate_pdf_returns [of w folder_id df ?st0 resp st'] g r
  obtain doc where doc: "pdf_file (local st') = Some doc"
    and dr: "drive st' =
        (case list_files folder_id ''failed_logs_report.pdf'' (drive ?st0) of
           f # _ \<Rightarrow> update_file (file_id f) (Pdf doc) (drive ?st0)
         | [] \<Rightarrow> drive ?st0 @
             [new_file (created_id w) ''failed_logs_report.pdf'' folder_id (Pdf doc)])"
    by blast
  show ?thesis
    unfolding out using doc dr
    by (auto simp: map_file_id_update content_after_update update_file_pointwise new_file_def
        split: list.splits)
qed

theorem report_updated_in_place_witness:
  "snd (fst (generate_report example_world)) = 200 \<and>
   environ example_world ''DRIVE_FOLDER_ID'' = Some ''folder'' \<and>
   map file_id (list_files ''folder'' ''failed_logs_report.pdf'' (drive_files example_world))
     = [''rep1''] \<and>
   map file_id (drive (snd (generate_report example_world))) = [''in1'', ''rep0'', ''rep1''] \<and>
   map file_content (drive_files example_world) = [Bytes [80, 75], Bytes [], Bytes []] \<and>
   (\<exists>doc. map file_content (drive (snd (generate_report example_world)))
            = [Bytes [80, 75], Bytes [], Pdf doc]) \<and>
   snd (fst (generate_report example_world_first_run)) = 200 \<and>
   list_files ''folder'' ''failed_logs_report.pdf'' (drive_files example_world_first_run) = [] \<and>
   (\<exists>doc. drive (snd (generate_report example_world_first_run)) =
      drive_files example_world_first_run @
        [\<lparr> file_id = ''new1'', file_name = ''failed_logs_report.pdf'',
           file_parents = [''folder''], file_trashed = False, file_content = Pdf doc \<rparr>])"
proof -
  let ?w = example_world
  let ?v = example_world_first_run
  let ?rep = "\<lparr> file_id = ''rep1'', file_name = ''failed_logs_report.pdf'',
            file_parents = [''folder''], file_trashed = False, file_content = Bytes [] \<rparr>"
  have ok: "snd (fst (generate_report ?w)) = 200"
    by (simp add: generate_report_def fetch_defs report_defs step_defs agg_defs load_defs
        list_files_def update_file_def required_cols_def success_def example_defs)
  have folder: "environ ?w ''DRIVE_FOLDER_ID'' = Some ''folder''"
    by (simp add: example_defs)
  have lf: "list_files ''folder'' ''failed_logs_report.pdf'' (drive_files ?w) = [?rep]"
    by (simp add: list_files_def example_defs)
  have before: "map file_content (drive_files ?w) = [Bytes [80, 75], Bytes [], Bytes []]"
    by (simp add: example_defs)
  from report_updated_in_place [OF ok folder] obtain doc where
    "drive (snd (generate_report ?w)) = update_file ''rep1'' (Pdf doc) (drive_files ?w)"
    by (auto simp: lf)
  then have "map file_id (drive (snd (generate_report ?w))) = [''in1'', ''rep0'', ''rep1''] \<and>
      map file_content (drive (snd (generate_report ?w))) = [Bytes [80, 75], Bytes [], Pdf doc]"
    by (simp add: update_file_def example_defs)
  then have first: "map file_id (drive (snd (generate_report ?w))) = [''in1'', ''rep0'', ''rep1''] \<and>
      (\<exists>doc. map file_content (drive (snd (generate_report ?w)))
            = [Bytes [80, 75], Bytes [], Pdf doc])"
    by auto
  have ok': "snd (fst (generate_report ?v)) = 200"
    by (simp add: generate_report_def fetch_defs report_defs step_defs agg_defs load_defs
        list_files_def new_file_def required_cols_def success_def
        example_world_first_run_def example_defs)
  have folder': "environ ?v ''DRIVE_FOLDER_ID'' = Some ''folder''"
    by (simp add: example_world_first_run_def example_defs)
  have lf': "list_files ''folder'' ''failed_logs_report.pdf'' (drive_files ?v) = []"
    by (simp add: list_files_def example_world_first_run_def example_defs)
  have cid: "created_id ?v = ''new1''"
    by (simp add: example_world_first_run_def example_defs)
  from report_updated_in_place [OF ok' folder'] have
    "\<exists>doc. drive (snd (generate_report ?v)) =
      drive_files ?v @
        [\<lparr> file_id = ''new1'', file_name = ''failed_logs_report.pdf'',
           file_parents = [''folder''], file_trashed = False, file_content = Pdf doc \<rparr>]"
    by (auto simp: lf' cid)
  with ok folder lf before first ok' lf' show ?thesis
    by simp
qed

text \<open>
  Claim C2. For every row set, the final summary text, which is the body of the PDF:
  when the assembled text has more than 300 words, it is the first 300 of them, joined
  by single spaces, followed by the marker, and split again it has exactly 300 tokens
  (the first 299 words, and the 300th with the marker on it); when the assembled text
  has at most 300 words, it is the assembled text.
\<close>

theorem summary_text_capped:
  assumes agg: "aggregate rs = Inr s"
    and t: "t = join [CHR 0x0A] (summary_lines sd sn s)"
  shows "(300 < length (split t) \<longrightarrow>
      summary_text sd sn s = join '' '' (take 300 (split t)) @ ''...'' \<and>
      split (summary_text sd sn s) = take 299 (split t) @ [split t ! 299 @ ''...''] \<and>
      length (split (summary_text sd sn s)) = 300) \<and>
   (length (split t) \<le> 300 \<longrightarrow> summary_text sd sn s = t) \<and>
   (generate_pdf w folder_id \<lparr> columns = cs, records = rs \<rparr> st = (Inr r, st') \<longrightarrow>
      (\<exists>doc. pdf_file (local st') = Some doc \<and>
             pdf_body doc = summary_text (str_date w) (str_null w) s))"
proof -
  have st: "summary_text sd sn s = cap_words t"
    by (simp add: summary_text_def t)
  have body: "\<exists>doc. pdf_file (local st') = Some doc \<and>
             pdf_body doc = summary_text (str_date w) (str_null w) s"
    if "generate_pdf w folder_id \<lparr> columns = cs, records = rs \<rparr> st = (Inr r, st')"
    using generate_pdf_returns [OF that] agg by auto
  from cap_words_long [of t] cap_words_short [of t] body show ?thesis
    unfolding st by blast
qed

lemma str_nat_one: "str_nat (Suc 0) = ''1''"
  by code_simp

theorem summary_text_capped_witness:
  "aggregate example_rows_long =
     Inr \<lparr> total_failures = 1, by_dataset = [(concat (replicate 150 ''a ''), 1)],
           most_common_error = ''timeout'', most_recent = Some 1,
           recent_failures =
             [(Some 1, Some (concat (replicate 150 ''a '')), Some ''timeout'')] \<rparr> \<and>
   300 < length (split (join [CHR 0x0A]
     (summary_lines (str_date example_world) (str_null example_world)
        \<lparr> total_failures = 1, by_dataset = [(concat (replicate 150 ''a ''), 1)],
          most_common_error = ''timeout'', most_recent = Some 1,
          recent_failures =
            [(Some 1, Some (concat (replicate 150 ''a '')), Some ''timeout'')] \<rparr>))) \<and>
   length (split (summary_text (str_date example_world) (str_null example_world)
        \<lparr> total_failures = 1, by_dataset = [(concat (replicate 150 ''a ''), 1)],
          most_common_error = ''timeout'', most_recent = Some 1,
          recent_failures =
            [(Some 1, Some (concat (replicate 150 ''a '')), Some ''timeout'')] \<rparr>)) = 300"
proof -
  let ?s = "\<lparr> total_failures = 1, by_dataset = [(concat (replicate 150 ''a ''), 1)],
          most_common_error = ''timeout'', most_recent = Some 1,
          recent_failures =
            [(Some 1, Some (concat (replicate 150 ''a '')), Some ''timeout'')] \<rparr>"
  let ?t = "join [CHR 0x0A] (summary_lines (str_date example_world) (str_null example_world) ?s)"
  have a: "aggregate example_rows_long = Inr ?s"
    by (simp add: agg_defs example_rows_long_def)
  have b: "300 < length (split ?t)"
    by (simp add: split_def summary_lines_def dataset_line_def recent_line_def render_reason_def
        str_cell_def head_def example_world_def str_nat_one isspace_def split_from_replicate)
  from summary_text_capped [OF a refl, of "str_date example_world" "str_null example_world"] b
  have "length (split (summary_text (str_date example_world) (str_null example_world) ?s)) = 300"
    by blast
  with a b show ?thesis
    by blast
qed

text \<open>
  Claim C10. Rows without a dataset are in no entry of \<open>by_dataset\<close>: the counts add up
  to the number of rows that have a dataset, no dataset has two entries, and every entry
  is a dataset of some row with the number of rows that have it. The per-dataset lines
  of the summary are the lines of the first five entries and nothing else stands between
  the heading and the blank line; the bars of the chart a run draws are the entries.
\<close>

theorem null_datasets_excluded:
  assumes "aggregate rs = Inr s"
  shows "counts_sum (by_dataset s) = length (filter (\<lambda>r. dataset r \<noteq> None) rs) \<and>
         counts_sum (by_dataset s) + null_datasets rs = total_failures s \<and>
         distinct (map fst (by_dataset s)) \<and>
         (\<forall>kc \<in> set (by_dataset s).
            Some (fst kc) \<in> set (map dataset rs) \<and> snd kc = dataset_freq rs (fst kc)) \<and>
         summary_lines sd sn s =
           [''Failed Query Log Report'',
            ''Total failed queries: '' @ str_nat (length rs),
            ''Most recent failure: '' @ sd (most_recent s),
            [],
            ''Failures by dataset (top 5):'']
           @ map (\<lambda>kc. ''  - '' @ fst kc @ '': '' @ str_nat (dataset_freq rs (fst kc)))
               (take 5 (by_dataset s))
           @ [[], ''Most common error: '' @ most_common_error s, [],
              ''Recent failures (top 5):'']
           @ map (recent_line sd sn) (recent_failures s) \<and>
         (generate_pdf w folder_id \<lparr> columns = cs, records = rs \<rparr> st = (Inr r, st') \<longrightarrow>
            chart_file (local st') =
              Some \<lparr> chart_title = ''Failures by Dataset'', chart_xlabel = ''Dataset'',
                     chart_ylabel = ''Count'', chart_bars = by_dataset s \<rparr> \<and>
            (\<exists>doc. pdf_file (local st') = Some doc \<and> pdf_image doc = chart_file (local st') \<and>
                   pdf_body doc = summary_text (str_date w) (str_null w) s)) \<and>
         (by_dataset s = [] \<longrightarrow>
            (\<exists>e. fst (generate_pdf w folder_id \<lparr> columns = cs, records = rs \<rparr> st) = Inl e))"
proof -
  have bd: "by_dataset s = value_counts (map dataset rs)"
    by (rule aggregate_fields(2) [OF assms])
  have 1: "counts_sum (by_dataset s) = length (filter (\<lambda>r. dataset r \<noteq> None) rs)"
    by (simp add: bd sum_value_counts comp_def)
  with null_plus_nonnull [of rs] aggregate_fields(1) [OF assms]
  have 2: "counts_sum (by_dataset s) + null_datasets rs = total_failures s"
    by (simp only:)
  have 3: "distinct (map fst (by_dataset s))"
    by (simp add: bd distinct_value_counts)
  have 4: "Some (fst kc) \<in> set (map dataset rs) \<and> snd kc = dataset_freq rs (fst kc)"
    if "kc \<in> set (by_dataset s)" for kc
    using that set_value_counts [of "fst kc" "snd kc" "map dataset rs"]
    by (simp add: bd dataset_freq_def comp_def)
  have "map dataset_line (take 5 (by_dataset s)) =
      map (\<lambda>kc. ''  - '' @ fst kc @ '': '' @ str_nat (dataset_freq rs (fst kc)))
        (take 5 (by_dataset s))"
    using 4 by (auto simp: dataset_line_def dest: in_set_takeD)
  then have 5: "summary_lines sd sn s =
           [''Failed Query Log Report'',
            ''Total failed queries: '' @ str_nat (length rs),
            ''Most recent failure: '' @ sd (most_recent s),
            [],
            ''Failures by dataset (top 5):'']
           @ map (\<lambda>kc. ''  - '' @ fst kc @ '': '' @ str_nat (dataset_freq rs (fst kc)))
               (take 5 (by_dataset s))
           @ [[], ''Most common error: '' @ most_common_error s, [],
              ''Recent failures (top 5):'']
           @ map (recent_line sd sn) (recent_failures s)"
    by (simp add: summary_lines_def head_def aggregate_fields(1) [OF assms])
  have 6: "chart_file (local st') =
              Some \<lparr> chart_title = ''Failures by Dataset'', chart_xlabel = ''Dataset'',
                     chart_ylabel = ''Count'', chart_bars = by_dataset s \<rparr> \<and>
            (\<exists>doc. pdf_file (local st') = Some doc \<and> pdf_image doc = chart_file (local st') \<and>
                   pdf_body doc = summary_text (str_date w) (str_null w) s)"
    if "generate_pdf w folder_id \<lparr> columns = cs, records = rs \<rparr> st = (Inr r, st')"
    using generate_pdf_returns [OF that] assms by auto
  have 7: "\<exists>e. fst (generate_pdf w folder_id \<lparr> columns = cs, records = rs \<rparr> st) = Inl e"
    if "by_dataset s = []"
    using generate_pdf_no_bars [of "\<lparr> columns = cs, records = rs \<rparr>" s w folder_id st] assms that
    by simp
  from 1 2 3 4 5 6 7 show ?thesis by blast
qed

theorem null_datasets_excluded_witness:
  "aggregate example_rows
     = Inr \<lparr> total_failures = 3, by_dataset = [(''sales'', 2)], most_common_error = ''timeout'',
             most_recent = Some 3,
             recent_failures = [(Some 1, Some ''sales'', Some ''timeout''),
                                (Some 2, None, Some ''quota''), (Some 3, Some ''sales'', None)] \<rparr>
   \<and> counts_sum [(''sales'', 2 :: nat)] = 2
   \<and> null_datasets example_rows = 1
   \<and> dataset_freq example_rows ''sales'' = 2
   \<and> fst (generate_pdf example_world ''folder'' example_table (initial example_world))
       = Inr success
   \<and> chart_file (local (snd
         (generate_pdf example_world ''folder'' example_table (initial example_world))))
       = Some \<lparr> chart_title = ''Failures by Dataset'', chart_xlabel = ''Dataset'',
                chart_ylabel = ''Count'', chart_bars = [(''sales'', 2)] \<rparr>"
proof -
  let ?s = "\<lparr> total_failures = 3, by_dataset = [(''sales'', 2)], most_common_error = ''timeout'',
             most_recent = Some 3,
             recent_failures = [(Some 1, Some ''sales'', Some ''timeout''),
                                (Some 2, None, Some ''quota''), (Some 3, Some ''sales'', None)] \<rparr>"
  let ?g = "generate_pdf example_world ''folder''
      \<lparr> columns = [''date'', ''dataset'', ''reason''], records = example_rows \<rparr>
      (initial example_world)"
  have a: "aggregate example_rows = Inr ?s"
    by (simp add: agg_defs example_rows_def)
  have n: "null_datasets example_rows = 1"
    by (simp add: null_datasets_def example_rows_def)
  have g: "fst ?g = Inr success"
    by (simp add: report_defs step_defs agg_defs initial_def
        list_files_def update_file_def example_defs)
  then have g': "?g = (Inr success, snd ?g)"
    by (metis prod.collapse)
  from null_datasets_excluded [OF a,
      of _ _ example_world "''folder''" "[''date'', ''dataset'', ''reason'']"
         "initial example_world" success "snd ?g"] g'
  have c: "chart_file (local (snd ?g)) =
      Some \<lparr> chart_title = ''Failures by Dataset'', chart_xlabel = ''Dataset'',
             chart_ylabel = ''Count'', chart_bars = [(''sales'', 2)] \<rparr>"
    by simp
  have s: "counts_sum [(''sales'', 2 :: nat)] = 2"
    by (simp add: counts_sum_def)
  have d: "dataset_freq example_rows ''sales'' = 2"
    by (simp add: dataset_freq_def example_rows_def)
  from a n g c s d show ?thesis
    unfolding example_table_def by (intro conjI)
qed

text \<open>
  Claim C6. The empty table is where the code fails the claim. The aggregation returns
  on it (\<open>total\<close> 0, the sentinel, a null most recent date), but its \<open>by_dataset\<close> is
  empty and the chart, drawn before the summary lines are assembled, raises on it: a run
  that reaches step 7 with a table of no rows answers through the handler, with status
  500, and writes no PDF, so the summary text is never built.
\<close>

theorem empty_table_run_fails:
  assumes "reaches_report w folder_id f df" and "records df = []"
  shows "aggregate (records df) =
           Inr \<lparr> total_failures = 0, by_dataset = [], most_common_error = ''N/A'',
                 most_recent = None, recent_failures = [] \<rparr> \<and>
         fst (generate_report w) =
           (''Error generating PDF report: '' @
              (case fault w Plot of Some e \<Rightarrow> e | None \<Rightarrow> empty_plot_error w), 500) \<and>
         local (snd (generate_report w)) = tmp_files w \<and>
         drive (snd (generate_report w)) = drive_files w"
proof -
  have a: "aggregate (records df) =
           Inr \<lparr> total_failures = 0, by_dataset = [], most_common_error = ''N/A'',
                 most_recent = None, recent_failures = [] \<rparr>"
    using assms(2) by (simp add: agg_defs)
  from run_reaching [OF assms(1)] obtain lg where
    b: "try_body w (initial w) =
          generate_pdf w folder_id df \<lparr> log = lg, drive = drive_files w, local = tmp_files w \<rparr>"
    by blast
  from generate_pdf_no_bars [OF a, of w folder_id
      "\<lparr> log = lg, drive = drive_files w, local = tmp_files w \<rparr>"] b a
  show ?thesis
    by (simp add: generate_report_def)
qed

theorem empty_table_run_fails_witness:
  "reaches_report example_world_empty ''folder'' example_input
     \<lparr> columns = [''date'', ''dataset'', ''reason''], records = [] \<rparr> \<and>
   fst (generate_report example_world_empty) =
     (''Error generating PDF report: index 0 is out of bounds for axis 0 with size 0'', 500) \<and>
   pdf_file (local (snd (generate_report example_world_empty))) = None \<and>
   drive (snd (generate_report example_world_empty)) = drive_files example_world_empty"
proof -
  let ?df = "\<lparr> columns = [''date'', ''dataset'', ''reason''], records = [] \<rparr>"
  have r: "reaches_report example_world_empty ''folder'' example_input ?df"
    by (simp add: reaches_report_def example_world_empty_def example_defs load_defs
        list_files_def required_cols_def)
  have e: "records ?df = []"
    by simp
  have w: "fault example_world_empty Plot = None"
      "empty_plot_error example_world_empty = ''index 0 is out of bounds for axis 0 with size 0''"
      "tmp_files example_world_empty = \<lparr> chart_file = None, pdf_file = None \<rparr>"
    by (simp_all add: example_world_empty_def example_defs)
  from empty_table_run_fails [OF r e] r w show ?thesis
    by simp
qed

end
